theory Spec2Isabelle
  imports Complex_Main
begin

section \<open>FastAPI async demo: the helpers of app/utils.py and the endpoints of app/main.py\<close>

subsection \<open>Python values: decimal text of an integer\<close>

text \<open>
  An f-string field \<^verbatim>\<open>{result}\<close> holding a Python \<^verbatim>\<open>int\<close> is replaced by \<^verbatim>\<open>str(result)\<close>:
  the decimal digits, most significant first, no leading zero, with a minus sign in
  front of a negative number. Python integers are unbounded, hence \<^typ>\<open>int\<close>.
\<close>

definition digit_char :: "nat \<Rightarrow> char" where
  "digit_char d = char_of (48 + d)"

fun str_nat :: "nat \<Rightarrow> string" where
  "str_nat n = (if n < 10 then [digit_char n] else str_nat (n div 10) @ [digit_char (n mod 10)])"

declare str_nat.simps [simp del]

definition str_int :: "int \<Rightarrow> string" where
  "str_int i = (if i < 0 then CHR ''-'' # str_nat (nat (- i)) else str_nat (nat i))"

subsection \<open>app/utils.py: \<^verbatim>\<open>simulate_cpu_intensive_task\<close>\<close>

text \<open>
  \<^verbatim>\<open>
  def simulate_cpu_intensive_task(iterations: int = 10000000):
      result = 0
      for i in range(iterations):
          result += i * i
      return f"Computed result: {result}"
  \<close>
  The \<^verbatim>\<open>for\<close> loop over \<^verbatim>\<open>range(iterations)\<close> is the recursion \<open>cpu_loop\<close> on the loop
  variable \<open>i\<close>, carrying \<open>result\<close>; it stops as soon as \<open>i\<close> reaches \<open>iterations\<close>, at once
  when \<open>iterations \<le> 0\<close>. The two \<^verbatim>\<open>print\<close> calls write to standard output only and are
  left out.
\<close>

function cpu_loop :: "int \<Rightarrow> int \<Rightarrow> int \<Rightarrow> int" where
  "cpu_loop iterations i result =
     (if i < iterations then cpu_loop iterations (i + 1) (result + i * i) else result)"
  by pat_completeness auto
termination
  by (relation "measure (\<lambda>(iterations, i, result). nat (iterations - i))") auto

declare cpu_loop.simps [simp del]

definition simulate_cpu_intensive_task :: "int \<Rightarrow> string" where
  "simulate_cpu_intensive_task iterations =
     ''Computed result: '' @ str_int (cpu_loop iterations 0 0)"

subsection \<open>Python exceptions raised inside \<^verbatim>\<open>fetch_external_api\<close>\<close>




subsection \<open>JSON values and HTTP responses\<close>

datatype json =
    JNull
  | JBool bool
  | JNumber real
  | JString string
  | JArray "json list"
  | JObject "(string \<times> json) list"


subsection \<open>app/utils.py: \<^verbatim>\<open>fetch_external_api\<close>\<close>










subsection \<open>The user table\<close>

text \<open>
  app/schemas.py declares \<^verbatim>\<open>UserBase\<close> (\<^verbatim>\<open>email: str\<close>, \<^verbatim>\<open>full_name: Optional[str] = None\<close>),
  \<^verbatim>\<open>UserCreate(UserBase)\<close> with nothing added, and \<^verbatim>\<open>User(UserBase)\<close> with \<^verbatim>\<open>id: int\<close> and
  \<^verbatim>\<open>is_active: bool\<close>. The field \<^verbatim>\<open>id\<close> is written \<open>id'\<close>.
\<close>

record UserBase =
  email :: string
  full_name :: "string option"

type_synonym UserCreate = UserBase

record User = UserBase +
  id' :: int
  is_active :: bool

text \<open>
  Modelled from the spec: the ORM class \<^verbatim>\<open>models.User\<close> and its table (app/models.py is
  not among the sources). The spec's data model gives a row the fields \<^verbatim>\<open>id\<close> (integer,
  generated, unique, immutable after creation), \<^verbatim>\<open>email\<close> (string, unique, required),
  \<^verbatim>\<open>full_name\<close> (optional string) and \<^verbatim>\<open>is_active\<close> (boolean, default true). These are the
  fields of the schema \<^verbatim>\<open>User\<close>, so the record \<open>User\<close> serves for the row and for the
  response, and the table is the list of its rows in insertion order.
\<close>

datatype request_error =
    HTTPException nat string
  | MultipleResultsFound
  | IntegrityError

text \<open>
  Modelled from the spec: the generation of \<^verbatim>\<open>id\<close>. The spec says only that the store
  generates it and that it is unique; \<open>next_id\<close> is one generator that does this, one more
  than the largest \<^verbatim>\<open>id\<close> in the table and \<open>1\<close> in an empty table. The properties below
  use of it only that the generated \<^verbatim>\<open>id\<close> is the \<^verbatim>\<open>id\<close> of no row of the table.
\<close>

definition next_id :: "User list \<Rightarrow> int" where
  "next_id db = fold max (map id' db) 0 + 1"

subsection \<open>app/utils.py: \<^verbatim>\<open>get_user_by_email\<close> and \<^verbatim>\<open>create_user\<close>\<close>

text \<open>
  \<^verbatim>\<open>
  async def get_user_by_email(db, email: str):
      result = await db.execute(
          select(models.User).where(models.User.email == email)
      )
      return result.scalar_one_or_none()
  \<close>
  The query selects the rows whose \<^verbatim>\<open>email\<close> column equals the argument.
  \<^verbatim>\<open>scalar_one_or_none\<close> returns \<^verbatim>\<open>None\<close> for no row, the row when there is exactly one, and
  raises \<^verbatim>\<open>MultipleResultsFound\<close> for more.
\<close>

definition scalar_one_or_none :: "'a list \<Rightarrow> request_error + 'a option" where
  "scalar_one_or_none result =
     (case result of
        [] \<Rightarrow> Inr None
      | [row] \<Rightarrow> Inr (Some row)
      | _ \<Rightarrow> Inl MultipleResultsFound)"

definition get_user_by_email :: "User list \<Rightarrow> string \<Rightarrow> request_error + User option" where
  "get_user_by_email db e = scalar_one_or_none (filter (\<lambda>row. email row = e) db)"

text \<open>
  \<^verbatim>\<open>
  async def create_user(db, user_data: dict):
      db_user = models.User(**user_data)
      db.add(db_user)
      await db.commit()
      await db.refresh(db_user)
      return db_user
  \<close>
  The function returns its result together with the table after the call. The new row
  takes the two fields of \<^verbatim>\<open>user_data\<close>, the generated \<^verbatim>\<open>id\<close> and the default
  \<^verbatim>\<open>is_active = True\<close>. Modelled from the spec: the uniqueness constraint on \<^verbatim>\<open>email\<close>,
  by which a commit that would store a second row with the same email raises
  \<^verbatim>\<open>IntegrityError\<close> and stores nothing.
\<close>

definition utils_create_user :: "User list \<Rightarrow> UserCreate \<Rightarrow> (request_error + User) \<times> User list" where
  "utils_create_user db user_data =
     (let db_user = \<lparr>email = email user_data, full_name = full_name user_data,
                      id' = next_id db, is_active = True\<rparr>
      in if email user_data \<in> set (map email db) then (Inl IntegrityError, db)
         else (Inr db_user, db @ [db_user]))"

subsection \<open>app/main.py: the endpoints \<^verbatim>\<open>get_user\<close> and \<^verbatim>\<open>create_user\<close>\<close>

text \<open>
  \<^verbatim>\<open>
  async def get_user(user_email: str, db: AsyncSession = Depends(get_async_db)):
      user = await utils.get_user_by_email(db, user_email)
      if user is None:
          raise HTTPException(status_code=404, detail="User not found")
      return user

  async def create_user(user: schemas.UserCreate, db: AsyncSession = Depends(get_async_db)):
      existing_user = await utils.get_user_by_email(db, user.email)
      if existing_user:
          raise HTTPException(status_code=400, detail="Email already registered")
      db_user = await utils.create_user(db, user.model_dump())
      return db_user
  \<close>
  An endpoint takes the table and returns its outcome (\<open>Inl\<close> an exception raised, \<open>Inr\<close> the
  value returned) with the table after the request. \<^verbatim>\<open>user.model_dump()\<close> is the dictionary
  of the two fields of \<^verbatim>\<open>UserCreate\<close>, which is the record itself.
\<close>

definition get_user :: "string \<Rightarrow> User list \<Rightarrow> (request_error + User) \<times> User list" where
  "get_user user_email db =
     (case get_user_by_email db user_email of
        Inl e \<Rightarrow> (Inl e, db)
      | Inr None \<Rightarrow> (Inl (HTTPException 404 ''User not found''), db)
      | Inr (Some user) \<Rightarrow> (Inr user, db))"

definition main_create_user :: "UserCreate \<Rightarrow> User list \<Rightarrow> (request_error + User) \<times> User list" where
  "main_create_user user db =
     (case get_user_by_email db (email user) of
        Inl e \<Rightarrow> (Inl e, db)
      | Inr (Some existing_user) \<Rightarrow> (Inl (HTTPException 400 ''Email already registered''), db)
      | Inr None \<Rightarrow> utils_create_user db user)"

text \<open>A sequence of create requests, one after the other, whatever each one's outcome.\<close>

fun create_all :: "UserCreate list \<Rightarrow> User list \<Rightarrow> User list" where
  "create_all [] db = db"
| "create_all (user # users) db = create_all users (snd (main_create_user user db))"

subsection \<open>app/database.py: \<^verbatim>\<open>get_async_db\<close>\<close>

text \<open>
  \<^verbatim>\<open>
  async def get_async_db():
      async with AsyncSessionLocal() as session:
          try:
              yield session
          finally:
              await session.close()
  \<close>
  The state of the server is the table and the sessions created so far, each open or
  closed. \<^verbatim>\<open>AsyncSessionLocal()\<close> adds a new open session; \<^verbatim>\<open>session.close()\<close> marks it
  closed, and closing a closed session changes nothing. At \<^verbatim>\<open>yield session\<close> the request
  runs with the session: it returns a value, or raises, and then the exception is thrown
  into the generator at the \<^verbatim>\<open>yield\<close>. In both cases the \<^verbatim>\<open>finally\<close> clause runs, then the
  exit of \<^verbatim>\<open>async with\<close>, which closes the session as well, and the outcome of the request
  is what the caller sees.
\<close>

datatype session_state = SessionOpen | SessionClosed

record server =
  users :: "User list"
  sessions :: "session_state list"

definition AsyncSessionLocal :: "server \<Rightarrow> nat \<times> server" where
  "AsyncSessionLocal s = (length (sessions s), s\<lparr>sessions := sessions s @ [SessionOpen]\<rparr>)"

definition session_close :: "nat \<Rightarrow> server \<Rightarrow> server" where
  "session_close session s = s\<lparr>sessions := (sessions s)[session := SessionClosed]\<rparr>"

definition get_async_db ::
  "(User list \<Rightarrow> ('e + 'a) \<times> User list) \<Rightarrow> server \<Rightarrow> ('e + 'a) \<times> server" where
  "get_async_db request s0 =
     (let (session, s1) = AsyncSessionLocal s0;
          (outcome, db) = request (users s1);
          s2 = s1\<lparr>users := db\<rparr>;
          s3 = (case outcome of
                  Inr returned \<Rightarrow> session_close session s2
                | Inl raised \<Rightarrow> session_close session s2);
          s4 = session_close session s3
      in (outcome, s4))"

definition open_sessions :: "server \<Rightarrow> nat" where
  "open_sessions s = length (filter (\<lambda>st. st = SessionOpen) (sessions s))"

text \<open>Concrete tables, used to run the endpoints on explicit inputs.\<close>

definition alice :: User where
  "alice = \<lparr>email = ''a@example.com'', full_name = Some ''Alice'', id' = 1, is_active = True\<rparr>"

definition carol :: User where
  "carol = \<lparr>email = ''c@example.com'', full_name = Some ''Carol'', id' = 3, is_active = True\<rparr>"

definition bob :: User where
  "bob = \<lparr>email = ''Bob@example.com'', full_name = None, id' = 2, is_active = True\<rparr>"

section \<open>Properties\<close>

subsection \<open>The CPU-bound loop\<close>

lemma cpu_loop_sum:
  "i \<le> iterations \<Longrightarrow> cpu_loop iterations i result = result + (\<Sum>k = i..<iterations. k * k)"
proof (induction iterations i result rule: cpu_loop.induct)
  case (1 iterations i result)
  show ?case
  proof (cases "i < iterations")
    case True
    have split: "{i..<iterations} = insert i {i + 1..<iterations}"
      using True by auto
    have "cpu_loop iterations i result = cpu_loop iterations (i + 1) (result + i * i)"
      using True by (simp add: cpu_loop.simps [of iterations i])
    also have "\<dots> = (result + i * i) + (\<Sum>k = i + 1..<iterations. k * k)"
      using "1.IH" [OF True] True by simp
    also have "\<dots> = result + (\<Sum>k = i..<iterations. k * k)"
      by (simp add: split)
    finally show ?thesis .
  next
    case False
    then have "cpu_loop iterations i result = result"
      by (simp add: cpu_loop.simps [of iterations i])
    moreover have "{i..<iterations} = {}"
      using False by simp
    ultimately show ?thesis by simp
  qed
qed

text \<open>
  C9. For every non-negative iteration count \<open>n\<close>, \<open>simulate_cpu_intensive_task n\<close> is the
  text \<^verbatim>\<open>Computed result: \<close> followed by the decimal form of the sum of \<open>i * i\<close> for \<open>i\<close> from
  \<open>0\<close> to \<open>n - 1\<close>.
\<close>

theorem simulate_cpu_intensive_task_sum_of_squares:
  "0 \<le> n \<Longrightarrow>
     simulate_cpu_intensive_task n = ''Computed result: '' @ str_int (\<Sum>i = 0..<n. i * i)"
  by (simp add: simulate_cpu_intensive_task_def cpu_loop_sum)

theorem simulate_cpu_intensive_task_sum_of_squares_witness:
  "(0::int) \<le> 4 \<and> simulate_cpu_intensive_task 4 = ''Computed result: 14''"
proof -
  have sq: "(\<Sum>i = 0..<(4::int). i * i) = 14"
    by code_simp
  have dec: "str_int 14 = ''14''"
    by code_simp
  show ?thesis
    using simulate_cpu_intensive_task_sum_of_squares [of 4] by (simp add: sq dec)
qed

subsection \<open>The external fetch\<close>








subsection \<open>The user table: lookup and creation\<close>

lemma fold_max_lower: "(a::int) \<le> fold max xs a"
proof (induction xs arbitrary: a)
  case Nil
  show ?case by simp
next
  case (Cons x xs)
  have "a \<le> max x a" by simp
  also have "\<dots> \<le> fold max xs (max x a)" by (rule Cons.IH)
  finally show ?case by simp
qed

lemma fold_max_upper: "x \<in> set xs \<Longrightarrow> (x::int) \<le> fold max xs a"
proof (induction xs arbitrary: a)
  case Nil
  then show ?case by simp
next
  case (Cons y ys)
  show ?case
  proof (cases "x = y")
    case True
    have "x \<le> max y a" using True by simp
    also have "\<dots> \<le> fold max ys (max y a)" by (rule fold_max_lower)
    finally show ?thesis by simp
  next
    case False
    with Cons.prems have "x \<in> set ys" by simp
    then have "x \<le> fold max ys (max y a)" by (rule Cons.IH)
    then show ?thesis by simp
  qed
qed

lemma next_id_fresh: "next_id db \<notin> id' ` set db"
proof
  assume "next_id db \<in> id' ` set db"
  then have "next_id db \<in> set (map id' db)"
    by simp
  then have "next_id db \<le> fold max (map id' db) 0"
    by (rule fold_max_upper)
  then show False
    by (simp add: next_id_def)
qed

lemma filter_email_absent:
  "e \<notin> email ` set db \<Longrightarrow> filter (\<lambda>row. email row = e) db = []"
  by (induction db) auto

lemma filter_email_unique:
  "distinct (map email db) \<Longrightarrow> u \<in> set db \<Longrightarrow> filter (\<lambda>row. email row = email u) db = [u]"
proof (induction db)
  case Nil
  then show ?case by simp
next
  case (Cons row db)
  show ?case
  proof (cases "u = row")
    case True
    from Cons.prems(1) have "email row \<notin> email ` set db" by simp
    then have "filter (\<lambda>r. email r = email row) db = []"
      by (rule filter_email_absent)
    with True show ?thesis by simp
  next
    case False
    with Cons.prems have later: "u \<in> set db" by simp
    with Cons.prems(1) have "email row \<noteq> email u" by force
    moreover have "filter (\<lambda>r. email r = email u) db = [u]"
      using Cons.IH Cons.prems(1) later by simp
    ultimately show ?thesis by simp
  qed
qed

lemma get_user_by_email_absent:
  "e \<notin> email ` set db \<Longrightarrow> get_user_by_email db e = Inr None"
  by (simp add: get_user_by_email_def scalar_one_or_none_def filter_email_absent)

lemma get_user_by_email_present:
  "distinct (map email db) \<Longrightarrow> u \<in> set db \<Longrightarrow> get_user_by_email db (email u) = Inr (Some u)"
  by (simp add: get_user_by_email_def scalar_one_or_none_def filter_email_unique)

lemma get_user_by_email_Some:
  "get_user_by_email db e = Inr (Some u) \<Longrightarrow> u \<in> set db \<and> email u = e"
proof -
  assume found: "get_user_by_email db e = Inr (Some u)"
  then have "filter (\<lambda>row. email row = e) db = [u]"
    by (simp add: get_user_by_email_def scalar_one_or_none_def split: list.splits)
  then have "u \<in> set (filter (\<lambda>row. email row = e) db)" by simp
  then show ?thesis by simp
qed

lemma get_user_by_email_None:
  "get_user_by_email db e = Inr None \<Longrightarrow> e \<notin> email ` set db"
proof -
  assume "get_user_by_email db e = Inr None"
  then have "filter (\<lambda>row. email row = e) db = []"
    by (simp add: get_user_by_email_def scalar_one_or_none_def split: list.splits)
  then show ?thesis
    by (auto simp: filter_empty_conv)
qed

lemma get_user_by_email_raises:
  "get_user_by_email db e = Inl err \<Longrightarrow> e \<in> email ` set db"
proof (rule ccontr)
  assume raised: "get_user_by_email db e = Inl err" and "e \<notin> email ` set db"
  then have "get_user_by_email db e = Inr None"
    by (simp add: get_user_by_email_absent)
  with raised show False by simp
qed

lemma main_create_user_new:
  "e \<notin> email ` set db \<Longrightarrow>
     main_create_user \<lparr>email = e, full_name = fn\<rparr> db =
       (Inr \<lparr>email = e, full_name = fn, id' = next_id db, is_active = True\<rparr>,
        db @ [\<lparr>email = e, full_name = fn, id' = next_id db, is_active = True\<rparr>])"
  by (simp add: main_create_user_def get_user_by_email_absent utils_create_user_def Let_def)

lemma main_create_user_emails:
  "email ` set (snd (main_create_user user db)) = insert (email user) (email ` set db)"
proof (cases "get_user_by_email db (email user)")
  case (Inl err)
  then have "email user \<in> email ` set db"
    by (rule get_user_by_email_raises)
  with Inl show ?thesis
    by (auto simp: main_create_user_def)
next
  case (Inr found)
  show ?thesis
  proof (cases found)
    case None
    with Inr have "email user \<notin> email ` set db"
      by (simp add: get_user_by_email_None)
    with Inr None show ?thesis
      by (simp add: main_create_user_def utils_create_user_def Let_def)
  next
    case (Some existing_user)
    with Inr have "existing_user \<in> set db \<and> email existing_user = email user"
      using get_user_by_email_Some [of db "email user" existing_user] by simp
    then have "email user \<in> email ` set db"
      by force
    with Inr Some show ?thesis
      by (auto simp: main_create_user_def)
  qed
qed

text \<open>
  The endpoint keeps the emails of the table pairwise different, so every table reached
  from the empty one by create requests satisfies the hypothesis of the theorems on
  lookup below.
\<close>

lemma main_create_user_distinct:
  "distinct (map email db) \<Longrightarrow> distinct (map email (snd (main_create_user user db)))"
proof (cases "get_user_by_email db (email user)")
  case (Inl err)
  assume "distinct (map email db)"
  with Inl show ?thesis by (simp add: main_create_user_def)
next
  case (Inr found)
  assume unique: "distinct (map email db)"
  show ?thesis
  proof (cases found)
    case None
    with Inr have "email user \<notin> email ` set db"
      by (simp add: get_user_by_email_None)
    with Inr None unique show ?thesis
      by (simp add: main_create_user_def utils_create_user_def Let_def)
  next
    case (Some existing_user)
    with Inr unique show ?thesis by (simp add: main_create_user_def)
  qed
qed

lemma create_all_emails:
  "email ` set (create_all requests db) = email ` set db \<union> email ` set requests"
proof (induction requests arbitrary: db)
  case Nil
  show ?case by simp
next
  case (Cons user requests)
  show ?case
    by (simp add: Cons.IH main_create_user_emails)
qed

lemma create_all_distinct:
  "distinct (map email db) \<Longrightarrow> distinct (map email (create_all requests db))"
  by (induction requests arbitrary: db) (simp_all add: main_create_user_distinct)

text \<open>
  C4. When the table (with its emails pairwise different, as the uniqueness constraint
  keeps them) already holds a user with the email of the request, the endpoint
  \<^verbatim>\<open>create_user\<close> raises \<^verbatim>\<open>HTTPException(400, "Email already registered")\<close>, the table is
  the one before the request, so nothing was inserted, and it holds exactly one row with
  that email.
\<close>

theorem create_user_duplicate_rejected:
  "distinct (map email db) \<Longrightarrow> email user \<in> email ` set db \<Longrightarrow>
     main_create_user user db = (Inl (HTTPException 400 ''Email already registered''), db) \<and>
     length (filter (\<lambda>row. email row = email user) (snd (main_create_user user db))) = 1"
proof -
  assume unique: "distinct (map email db)" and present: "email user \<in> email ` set db"
  from present obtain u where u: "u \<in> set db" "email u = email user"
    by auto
  from unique u have found: "get_user_by_email db (email user) = Inr (Some u)"
    using get_user_by_email_present [of db u] by simp
  then have rejected:
    "main_create_user user db = (Inl (HTTPException 400 ''Email already registered''), db)"
    by (simp add: main_create_user_def)
  from unique u have "filter (\<lambda>row. email row = email user) db = [u]"
    using filter_email_unique [of db u] by simp
  with rejected show ?thesis by simp
qed

theorem create_user_duplicate_rejected_witness:
  "main_create_user \<lparr>email = ''a@example.com'', full_name = Some ''Alice again''\<rparr> [alice, bob]
     = (Inl (HTTPException 400 ''Email already registered''), [alice, bob]) \<and>
   length (filter (\<lambda>row. email row = ''a@example.com'') [alice, bob]) = 1"
proof -
  have unique: "distinct (map email [alice, bob])"
    by (simp add: alice_def bob_def)
  have present:
    "email \<lparr>email = ''a@example.com'', full_name = Some ''Alice again''\<rparr> \<in> email ` set [alice, bob]"
    by (simp add: alice_def)
  from create_user_duplicate_rejected [OF unique present] show ?thesis
    by (simp add: alice_def bob_def)
qed

text \<open>
  C5. For an email \<open>e\<close> that no row of the table has, the endpoint \<^verbatim>\<open>create_user\<close> appends
  one row and returns it: its email is \<open>e\<close>, its name the one of the request, and its
  \<^verbatim>\<open>id\<close> is generated, the \<^verbatim>\<open>id\<close> of no row that was there before, so that the ids stay
  pairwise different; looking \<open>e\<close> up afterwards returns that row. Looking up an email
  that no create request ever carried returns \<^verbatim>\<open>None\<close>.
\<close>

theorem create_user_then_lookup:
  "(e \<notin> email ` set db \<longrightarrow>
      (\<exists>u. main_create_user \<lparr>email = e, full_name = fn\<rparr> db = (Inr u, db @ [u]) \<and>
           email u = e \<and> full_name u = fn \<and> is_active u \<and>
           id' u \<notin> id' ` set db \<and>
           (distinct (map id' db) \<longrightarrow> distinct (map id' (db @ [u]))) \<and>
           get_user_by_email (db @ [u]) e = Inr (Some u))) \<and>
   (missing \<notin> email ` set requests \<longrightarrow>
      get_user_by_email (create_all requests []) missing = Inr None)"
proof (intro conjI impI)
  assume new: "e \<notin> email ` set db"
  let ?u = "\<lparr>email = e, full_name = fn, id' = next_id db, is_active = True\<rparr>"
  have created: "main_create_user \<lparr>email = e, full_name = fn\<rparr> db = (Inr ?u, db @ [?u])"
    using new by (rule main_create_user_new)
  have "filter (\<lambda>row. email row = e) (db @ [?u]) = [?u]"
    using new by (simp add: filter_email_absent)
  then have lookup: "get_user_by_email (db @ [?u]) e = Inr (Some ?u)"
    by (simp add: get_user_by_email_def scalar_one_or_none_def)
  have fresh: "id' ?u \<notin> id' ` set db"
    using next_id_fresh [of db] by simp
  then have unique: "distinct (map id' db) \<longrightarrow> distinct (map id' (db @ [?u]))"
    by simp
  from created lookup fresh unique
  show "\<exists>u. main_create_user \<lparr>email = e, full_name = fn\<rparr> db = (Inr u, db @ [u]) \<and>
           email u = e \<and> full_name u = fn \<and> is_active u \<and>
           id' u \<notin> id' ` set db \<and>
           (distinct (map id' db) \<longrightarrow> distinct (map id' (db @ [u]))) \<and>
           get_user_by_email (db @ [u]) e = Inr (Some u)"
    by (intro exI [of _ ?u]) simp
next
  assume "missing \<notin> email ` set requests"
  then have "missing \<notin> email ` set (create_all requests [])"
    by (simp add: create_all_emails)
  then show "get_user_by_email (create_all requests []) missing = Inr None"
    by (rule get_user_by_email_absent)
qed

theorem create_user_then_lookup_witness:
  "main_create_user \<lparr>email = ''c@example.com'', full_name = Some ''Carol''\<rparr> [alice, bob]
     = (Inr carol, [alice, bob, carol]) \<and>
   id' carol = 3 \<and> id' carol \<notin> id' ` set [alice, bob] \<and>
   distinct (map id' [alice, bob, carol]) \<and>
   get_user_by_email [alice, bob, carol] ''c@example.com'' = Inr (Some carol) \<and>
   get_user_by_email
     (create_all [\<lparr>email = ''a@example.com'', full_name = None\<rparr>,
                  \<lparr>email = ''c@example.com'', full_name = Some ''Carol''\<rparr>] [])
     ''missing@example.com'' = Inr None"
proof -
  have new: "''c@example.com'' \<notin> email ` set [alice, bob]"
    by (simp add: alice_def bob_def)
  have ids: "distinct (map id' [alice, bob])"
    by (simp add: alice_def bob_def)
  have never:
    "''missing@example.com'' \<notin>
       email ` set [\<lparr>email = ''a@example.com'', full_name = None\<rparr>,
                    \<lparr>email = ''c@example.com'', full_name = Some ''Carol''\<rparr>]"
    by simp
  have third: "next_id [alice, bob] = 3"
    by (simp add: next_id_def alice_def bob_def)
  have shape:
    "main_create_user \<lparr>email = ''c@example.com'', full_name = Some ''Carol''\<rparr> [alice, bob]
       = (Inr carol, [alice, bob] @ [carol])"
    using new by (simp add: main_create_user_new third carol_def)
  from create_user_then_lookup
         [of "''c@example.com''" "[alice, bob]" "Some ''Carol''" "''missing@example.com''"
             "[\<lparr>email = ''a@example.com'', full_name = None\<rparr>,
               \<lparr>email = ''c@example.com'', full_name = Some ''Carol''\<rparr>]"]
       new never
  obtain u where
    made: "main_create_user \<lparr>email = ''c@example.com'', full_name = Some ''Carol''\<rparr> [alice, bob]
             = (Inr u, [alice, bob] @ [u])" and
    fresh: "id' u \<notin> id' ` set [alice, bob]" and
    unique: "distinct (map id' [alice, bob]) \<longrightarrow> distinct (map id' ([alice, bob] @ [u]))" and
    lookup: "get_user_by_email ([alice, bob] @ [u]) ''c@example.com'' = Inr (Some u)" and
    absent: "get_user_by_email
               (create_all [\<lparr>email = ''a@example.com'', full_name = None\<rparr>,
                            \<lparr>email = ''c@example.com'', full_name = Some ''Carol''\<rparr>] [])
               ''missing@example.com'' = Inr None"
    by blast
  from made shape have same: "u = carol"
    by simp
  have third_id: "id' carol = 3"
    by (simp add: carol_def)
  from same shape fresh unique ids lookup absent third_id show ?thesis
    by simp
qed

text \<open>
  C6. In a table whose emails are pairwise different, \<open>get_user_by_email\<close> returns a user
  exactly when that user is the row whose email is equal to the query, character for
  character, and returns \<^verbatim>\<open>None\<close> exactly when no row has that email; the endpoint
  \<^verbatim>\<open>get_user\<close> returns the row in the first case and raises
  \<^verbatim>\<open>HTTPException(404, "User not found")\<close>, a status outside 200..299, in the second.
\<close>

theorem get_user_by_email_exact:
  "distinct (map email db) \<Longrightarrow>
     (get_user_by_email db e = Inr (Some u) \<longleftrightarrow> u \<in> set db \<and> email u = e) \<and>
     (get_user_by_email db e = Inr None \<longleftrightarrow> e \<notin> email ` set db) \<and>
     (get_user e db = (Inr u, db) \<longleftrightarrow> u \<in> set db \<and> email u = e) \<and>
     (get_user e db = (Inl (HTTPException 404 ''User not found''), db) \<longleftrightarrow> e \<notin> email ` set db) \<and>
     \<not> (200 \<le> (404::nat) \<and> (404::nat) < 300)"
proof -
  assume unique: "distinct (map email db)"
  have found: "get_user_by_email db e = Inr (Some u) \<longleftrightarrow> u \<in> set db \<and> email u = e"
    using get_user_by_email_Some [of db e u] get_user_by_email_present [OF unique, of u]
    by blast
  have absent: "get_user_by_email db e = Inr None \<longleftrightarrow> e \<notin> email ` set db"
    using get_user_by_email_None [of db e] get_user_by_email_absent [of e db]
    by blast
  have returned: "get_user e db = (Inr u, db) \<longleftrightarrow> get_user_by_email db e = Inr (Some u)"
    by (simp add: get_user_def split: sum.splits option.splits)
  have not_found: "get_user e db = (Inl (HTTPException 404 ''User not found''), db) \<longleftrightarrow>
                     get_user_by_email db e = Inr None"
  proof (cases "get_user_by_email db e")
    case (Inl err)
    then have "e \<in> email ` set db"
      by (rule get_user_by_email_raises)
    then obtain row where "row \<in> set db" "email row = e"
      by auto
    with unique have "get_user_by_email db e = Inr (Some row)"
      using get_user_by_email_present [of db row] by simp
    with Inl show ?thesis by simp
  next
    case (Inr r)
    then show ?thesis
      by (cases r) (simp_all add: get_user_def)
  qed
  from found absent returned not_found show ?thesis
    by simp
qed

theorem get_user_by_email_exact_witness:
  "get_user_by_email [alice, bob] ''Bob@example.com'' = Inr (Some bob) \<and>
   get_user_by_email [alice, bob] ''bob@example.com'' = Inr None \<and>
   get_user_by_email [alice, bob] ''Bob@example'' = Inr None \<and>
   get_user ''Bob@example.com'' [alice, bob] = (Inr bob, [alice, bob]) \<and>
   get_user ''bob@example.com'' [alice, bob]
     = (Inl (HTTPException 404 ''User not found''), [alice, bob])"
proof -
  have unique: "distinct (map email [alice, bob])"
    by (simp add: alice_def bob_def)
  have present: "bob \<in> set [alice, bob] \<and> email bob = ''Bob@example.com''"
    by (simp add: bob_def)
  have lower: "''bob@example.com'' \<notin> email ` set [alice, bob]"
    by (simp add: alice_def bob_def)
  have prefix: "''Bob@example'' \<notin> email ` set [alice, bob]"
    by (simp add: alice_def bob_def)
  from present lower prefix
    get_user_by_email_exact [OF unique, of "''Bob@example.com''" bob]
    get_user_by_email_exact [OF unique, of "''bob@example.com''"]
    get_user_by_email_exact [OF unique, of "''Bob@example''"]
  show ?thesis
    by blast
qed

subsection \<open>The session of a request\<close>

lemma session_close_new:
  "session_close (length (sessions s)) (s\<lparr>sessions := sessions s @ [st], users := db\<rparr>)
     = \<lparr>users = db, sessions = sessions s @ [SessionClosed]\<rparr>"
  by (simp add: session_close_def)

lemma session_close_again:
  "session_close (length older) \<lparr>users = db, sessions = older @ [SessionClosed]\<rparr>
     = \<lparr>users = db, sessions = older @ [SessionClosed]\<rparr>"
  by (simp add: session_close_def)

text \<open>
  C7. Whatever the request does with the session of \<open>get_async_db\<close> (it returns a value,
  raises the 404 or the 400 of the endpoints, or raises anything else), after the request
  the session that was opened for it is closed, the other sessions are as they were, and
  the number of open sessions is the one before the request; the caller sees the
  outcome of the request.
\<close>

theorem get_async_db_closes_session:
  "request (users s) = (outcome, db) \<Longrightarrow>
     get_async_db request s = (outcome, \<lparr>users = db, sessions = sessions s @ [SessionClosed]\<rparr>) \<and>
     open_sessions (snd (get_async_db request s)) = open_sessions s"
proof -
  assume run: "request (users s) = (outcome, db)"
  let ?s2 = "s\<lparr>sessions := sessions s @ [SessionOpen], users := db\<rparr>"
  let ?after = "\<lparr>users = db, sessions = sessions s @ [SessionClosed]\<rparr>"
  have finally_clause:
    "(case outcome of Inr returned \<Rightarrow> session_close (length (sessions s)) ?s2
                    | Inl raised \<Rightarrow> session_close (length (sessions s)) ?s2) = ?after"
    by (cases outcome) (simp_all add: session_close_new)
  have "get_async_db request s = (outcome, session_close (length (sessions s)) ?after)"
    using run finally_clause by (simp add: get_async_db_def AsyncSessionLocal_def)
  then have result: "get_async_db request s = (outcome, ?after)"
    by (simp add: session_close_again)
  then have "open_sessions (snd (get_async_db request s)) = open_sessions s"
    by (simp add: open_sessions_def)
  with result show ?thesis by simp
qed

theorem get_async_db_closes_session_witness:
  "get_async_db (get_user ''missing@example.com'') \<lparr>users = [alice], sessions = [SessionClosed]\<rparr>
     = (Inl (HTTPException 404 ''User not found''),
        \<lparr>users = [alice], sessions = [SessionClosed, SessionClosed]\<rparr>) \<and>
   get_async_db (get_user ''a@example.com'') \<lparr>users = [alice], sessions = []\<rparr>
     = (Inr alice, \<lparr>users = [alice], sessions = [SessionClosed]\<rparr>) \<and>
   get_async_db (get_user ''a@example.com'') \<lparr>users = [alice, alice], sessions = []\<rparr>
     = (Inl MultipleResultsFound, \<lparr>users = [alice, alice], sessions = [SessionClosed]\<rparr>)"
proof -
  have not_found:
    "get_user ''missing@example.com'' (users \<lparr>users = [alice], sessions = [SessionClosed]\<rparr>)
       = (Inl (HTTPException 404 ''User not found''), [alice])"
    by (simp add: get_user_def get_user_by_email_def scalar_one_or_none_def alice_def)
  have success:
    "get_user ''a@example.com'' (users \<lparr>users = [alice], sessions = []\<rparr>) = (Inr alice, [alice])"
    by (simp add: get_user_def get_user_by_email_def scalar_one_or_none_def alice_def)
  have failure:
    "get_user ''a@example.com'' (users \<lparr>users = [alice, alice], sessions = []\<rparr>)
       = (Inl MultipleResultsFound, [alice, alice])"
    by (simp add: get_user_def get_user_by_email_def scalar_one_or_none_def alice_def)
  from not_found success failure
    get_async_db_closes_session
      [of "get_user ''missing@example.com''" "\<lparr>users = [alice], sessions = [SessionClosed]\<rparr>"
          "Inl (HTTPException 404 ''User not found'')" "[alice]"]
    get_async_db_closes_session
      [of "get_user ''a@example.com''" "\<lparr>users = [alice], sessions = []\<rparr>" "Inr alice" "[alice]"]
    get_async_db_closes_session
      [of "get_user ''a@example.com''" "\<lparr>users = [alice, alice], sessions = []\<rparr>"
          "Inl MultipleResultsFound" "[alice, alice]"]
  show ?thesis
    by simp
qed

end
